theory Spec2Isabelle
  imports Complex_Main "HOL-Library.Multiset"
begin

section \<open>Strings and numbers of the source language\<close>

text \<open>
  The attendance route (\<^verbatim>\<open>src/app/api/attendance/route.ts\<close>) works on JavaScript
  strings and numbers. A string is modelled as a \<^typ>\<open>string\<close> whose characters are the
  code units \<open>0..255\<close> (the Latin-1 range); on that range the definitions below are what
  the built-ins \<^verbatim>\<open>toLowerCase\<close>, \<^verbatim>\<open>replace(/\s+/g, ' ')\<close>, \<^verbatim>\<open>trim\<close> and
  \<^verbatim>\<open>split(' ')\<close> compute.

  A number is a rational, or one of the two values that a division by zero produces in
  JavaScript. The only quotients of the source are quotients of two array lengths, and
  the handler only compares two of them, or one of them with the literal \<^verbatim>\<open>0.7\<close>.
  Rounding to a double is monotone, and two different such quotients, or such a quotient
  and seven tenths, differ by far more than the rounding error for names of any
  realistic number of words: each comparison on doubles has the outcome of the
  comparison on the rationals, which is what the model computes.
\<close>

datatype number = Num rat | Infinity | NaN

definition js_div :: "nat \<Rightarrow> nat \<Rightarrow> number" where
  "js_div a b = (if b = 0 then (if a = 0 then NaN else Infinity) else Num (of_nat a / of_nat b))"

fun js_gt :: "number \<Rightarrow> number \<Rightarrow> bool" where
  "js_gt (Num a) (Num b) = (b < a)"
| "js_gt Infinity (Num b) = True"
| "js_gt _ _ = False"

fun js_ge :: "number \<Rightarrow> number \<Rightarrow> bool" where
  "js_ge (Num a) (Num b) = (b \<le> a)"
| "js_ge Infinity (Num b) = True"
| "js_ge Infinity Infinity = True"
| "js_ge _ _ = False"

definition isspace :: "char \<Rightarrow> bool" where
  "isspace c = (let n = (of_char c :: nat) in (9 \<le> n \<and> n \<le> 13) \<or> n = 32 \<or> n = 160)"

definition toLowerCase_char :: "char \<Rightarrow> char" where
  "toLowerCase_char c =
     (let n = (of_char c :: nat)
      in if (65 \<le> n \<and> n \<le> 90) \<or> (192 \<le> n \<and> n \<le> 222 \<and> n \<noteq> 215)
         then char_of (n + 32) else c)"

definition toLowerCase :: "string \<Rightarrow> string" where
  "toLowerCase s = map toLowerCase_char s"

text \<open>\<^verbatim>\<open>s.replace(/\s+/g, ' ')\<close>: every maximal run of white space becomes one space.\<close>

function replace_spaces :: "string \<Rightarrow> string" where
  "replace_spaces [] = []"
| "replace_spaces (c # cs) =
     (if isspace c then CHR '' '' # replace_spaces (dropWhile isspace cs)
      else c # replace_spaces cs)"
  by pat_completeness auto
termination
  by (relation "measure length") (auto simp: length_dropWhile_le less_Suc_eq_le)

definition trim :: "string \<Rightarrow> string" where
  "trim s = rev (dropWhile isspace (rev (dropWhile isspace s)))"

text \<open>
  \<^verbatim>\<open>s.split(' ')\<close>: the pieces between the separators, so that a string with \<open>n\<close>
  separators gives \<open>n + 1\<close> pieces and the empty string gives the one empty piece.
  \<open>cur\<close> is the piece being read.
\<close>

fun split_from :: "char \<Rightarrow> string \<Rightarrow> string \<Rightarrow> string list" where
  "split_from sep cur [] = [cur]"
| "split_from sep cur (c # cs) =
     (if c = sep then cur # split_from sep [] cs else split_from sep (cur @ [c]) cs)"

definition split_on :: "char \<Rightarrow> string \<Rightarrow> string list" where
  "split_on sep s = split_from sep [] s"

text \<open>
  \<^verbatim>\<open>Array.from(new Set(xs))\<close>: the elements of \<open>xs\<close> in the order of their first
  occurrence, each once.
\<close>

definition set_add :: "'a list \<Rightarrow> 'a \<Rightarrow> 'a list" where
  "set_add s x = (if x \<in> set s then s else s @ [x])"

definition new_Set :: "'a list \<Rightarrow> 'a list" where
  "new_Set xs = foldl set_add [] xs"

section \<open>Name similarity\<close>

text \<open>
  \<^verbatim>\<open>normalizeVietnameseName\<close> (lines 4 to 9) and \<^verbatim>\<open>calculateNameSimilarity\<close>
  (lines 11 to 24); \<open>name_words\<close> is \<^verbatim>\<open>words1\<close>, respectively \<^verbatim>\<open>words2\<close>.
\<close>

definition normalizeVietnameseName :: "string \<Rightarrow> string" where
  "normalizeVietnameseName name = trim (replace_spaces (toLowerCase name))"

definition name_words :: "string \<Rightarrow> string list" where
  "name_words name = split_on CHR '' '' (normalizeVietnameseName name)"

definition intersection_of :: "string list \<Rightarrow> string list \<Rightarrow> string list" where
  "intersection_of words1 words2 = filter (\<lambda>x. x \<in> set words2) words1"

definition union_of :: "string list \<Rightarrow> string list \<Rightarrow> string list" where
  "union_of words1 words2 = new_Set (words1 @ words2)"

definition calculateNameSimilarity :: "string \<Rightarrow> string \<Rightarrow> number" where
  "calculateNameSimilarity name1 name2 =
     (let words1 = name_words name1;
          words2 = name_words name2;
          intersection = intersection_of words1 words2;
          union = union_of words1 words2
      in js_div (length intersection) (length union))"

section \<open>The persistent store and the OCR reply\<close>

text \<open>
  The tables \<^verbatim>\<open>Student\<close> and \<^verbatim>\<open>Attendance\<close> of the Prisma schema. The field
  \<open>id'\<close> is the numeric key \<^verbatim>\<open>id\<close>, \<open>class'\<close> is \<^verbatim>\<open>class\<close>; an attendance row
  carries the three fields the route writes.
\<close>

record student =
  id' :: nat
  studentId :: string
  name :: string
  class' :: string

record attendance =
  att_studentId :: nat
  status :: string
  date :: nat

text \<open>
  The JSON object of the OCR service (line 56). A missing field is \<open>None\<close>; in a
  condition a missing or empty string is false. The confidence is a JSON number.
\<close>

record ocrResult =
  student_id :: "string option"
  student_name :: "string option"
  confidence :: rat
  ocr_text :: string

fun truthy :: "string option \<Rightarrow> bool" where
  "truthy None = False"
| "truthy (Some s) = (s \<noteq> [])"

text \<open>
  A request, as far as the handler looks at it: whether the form has a file (line 31),
  what the OCR service does with it (a failed call or an unreadable body, which raise; a
  reply that is not \<^verbatim>\<open>ok\<close>, with its text; a reply with its JSON object) and the time
  \<^verbatim>\<open>new Date()\<close> gives at line 121.
\<close>

datatype ocr_reply = OcrThrows | OcrNotOk string | OcrOk ocrResult

record request =
  file' :: bool
  ocr :: ocr_reply
  now :: nat

text \<open>
  The store holds the two tables. What the handler does while it runs is kept in
  \<open>trace\<close>: the queries it sends to the store (\<^verbatim>\<open>prisma.student.findFirst\<close>,
  \<^verbatim>\<open>prisma.student.findMany\<close>, \<^verbatim>\<open>prisma.attendance.create\<close>) and the calls of
  \<^verbatim>\<open>calculateNameSimilarity\<close>, with their arguments. A query on which the store
  raises is given by \<open>unavailable\<close>; the handler's \<^verbatim>\<open>catch\<close> (line 142) turns it
  into a response.
\<close>

datatype event =
    FindFirst string
  | FindMany
  | Similarity string string
  | Create attendance

record store =
  students :: "student list"
  attendances :: "attendance list"
  unavailable :: "event \<Rightarrow> bool"
  trace :: "event list"

datatype 'a outcome = Thrown | Value 'a

definition student_findFirst :: "string \<Rightarrow> store \<Rightarrow> student option outcome \<times> store" where
  "student_findFirst x st =
     (let st' = st\<lparr>trace := trace st @ [FindFirst x]\<rparr>
      in if unavailable st (FindFirst x) then (Thrown, st')
         else (Value (find (\<lambda>s. studentId s = x) (students st)), st'))"

definition student_findMany :: "store \<Rightarrow> student list outcome \<times> store" where
  "student_findMany st =
     (let st' = st\<lparr>trace := trace st @ [FindMany]\<rparr>
      in if unavailable st FindMany then (Thrown, st') else (Value (students st), st'))"

definition attendance_create :: "attendance \<Rightarrow> store \<Rightarrow> attendance outcome \<times> store" where
  "attendance_create a st =
     (let st' = st\<lparr>trace := trace st @ [Create a]\<rparr>
      in if unavailable st (Create a) then (Thrown, st')
         else (Value a, st'\<lparr>attendances := attendances st @ [a]\<rparr>))"

section \<open>The attendance handler\<close>

text \<open>
  The responses of \<^verbatim>\<open>POST\<close>, in the order of the source: status 400 (no file), 500
  (OCR service), 400 (low confidence, with the confidence and the raw text), 404 (student
  not found, with the four OCR fields), 200 (the record, the tag, the student and the
  four OCR fields) and the 500 of the \<^verbatim>\<open>catch\<close> block.
\<close>

datatype response =
    NoFileUploaded
  | OCRServiceFailed string
  | LowConfidence rat string
  | StudentNotFound "string option" "string option" rat string
  | Success attendance string student ocrResult
  | FailedToProcess

text \<open>Lines 74 to 80: the look-up by identifier, giving \<open>student\<close> and \<open>matchType\<close>.\<close>

definition find_by_id :: "ocrResult \<Rightarrow> store \<Rightarrow> (student option \<times> string) outcome \<times> store" where
  "find_by_id r st =
     (case student_id r of
        None \<Rightarrow> (Value (None, []), st)
      | Some x \<Rightarrow>
          if x = [] then (Value (None, []), st)
          else (case student_findFirst x st of
                  (Thrown, st') \<Rightarrow> (Thrown, st')
                | (Value None, st') \<Rightarrow> (Value (None, []), st')
                | (Value (Some s), st') \<Rightarrow> (Value (Some s, ''ID_Match''), st')))"

text \<open>Lines 89 to 95: one pass over the roster, keeping \<open>bestMatch\<close> and \<open>bestSimilarity\<close>.\<close>

fun best_scan :: "string \<Rightarrow> student list \<Rightarrow> student option \<times> number \<Rightarrow> student option \<times> number" where
  "best_scan nm [] best = best"
| "best_scan nm (potentialStudent # rest) (bestMatch, bestSimilarity) =
     (let similarity = calculateNameSimilarity (name potentialStudent) nm
      in if js_gt similarity bestSimilarity \<and> js_ge similarity (Num (7 / 10))
         then best_scan nm rest (Some potentialStudent, similarity)
         else best_scan nm rest (bestMatch, bestSimilarity))"

text \<open>Lines 83 to 101: the match by name, entered with the result of the look-up by identifier.\<close>

definition find_by_name ::
  "ocrResult \<Rightarrow> student option \<times> string \<Rightarrow> store \<Rightarrow> (student option \<times> string) outcome \<times> store" where
  "find_by_name r found st =
     (case student_name r of
        None \<Rightarrow> (Value found, st)
      | Some nm \<Rightarrow>
          if fst found = None \<and> nm \<noteq> [] \<and> 75 \<le> confidence r
          then (case student_findMany st of
                  (Thrown, st') \<Rightarrow> (Thrown, st')
                | (Value allStudents, st') \<Rightarrow>
                    let st'' = st'\<lparr>trace := trace st' @ map (\<lambda>p. Similarity (name p) nm) allStudents\<rparr>
                    in (case fst (best_scan nm allStudents (None, Num 0)) of
                          None \<Rightarrow> (Value found, st'')
                        | Some bestMatch \<Rightarrow> (Value (Some bestMatch, ''Name_Match''), st'')))
          else (Value found, st))"

text \<open>The handler, lines 26 to 149.\<close>

definition POST :: "request \<Rightarrow> store \<Rightarrow> response \<times> store" where
  "POST req st =
     (if \<not> file' req then (NoFileUploaded, st)
      else (case ocr req of
              OcrThrows \<Rightarrow> (FailedToProcess, st)
            | OcrNotOk errorText \<Rightarrow> (OCRServiceFailed errorText, st)
            | OcrOk r \<Rightarrow>
                if confidence r < 50 then (LowConfidence (confidence r) (ocr_text r), st)
                else (case find_by_id r st of
                        (Thrown, st1) \<Rightarrow> (FailedToProcess, st1)
                      | (Value found, st1) \<Rightarrow>
                          (case find_by_name r found st1 of
                             (Thrown, st2) \<Rightarrow> (FailedToProcess, st2)
                           | (Value (None, matchType), st2) \<Rightarrow>
                               (StudentNotFound (student_id r) (student_name r)
                                  (confidence r) (ocr_text r), st2)
                           | (Value (Some s, matchType), st2) \<Rightarrow>
                               (case attendance_create
                                       \<lparr>att_studentId = id' s, status = matchType, date = now req\<rparr> st2 of
                                  (Thrown, st3) \<Rightarrow> (FailedToProcess, st3)
                                | (Value a, st3) \<Rightarrow> (Success a matchType s r, st3))))))"

section \<open>A roster and OCR replies to run the handler on\<close>

definition roster1 :: "student list" where
  "roster1 = [\<lparr>id' = 1, studentId = ''B21DCVT020'', name = ''Nguyen Van A'', class' = ''D21''\<rparr>,
              \<lparr>id' = 2, studentId = ''B21DCVT021'', name = ''Tran Thi B'', class' = ''D21''\<rparr>]"

definition store1 :: store where
  "store1 = \<lparr>students = roster1, attendances = [], unavailable = (\<lambda>e. False), trace = []\<rparr>"

definition ocr_low :: ocrResult where
  "ocr_low = \<lparr>student_id = Some ''B21DCVT020'', student_name = Some ''Nguyen Van A'',
              confidence = 40, ocr_text = ''B21DCVT020 Nguyen Van A''\<rparr>"

definition ocr_id :: ocrResult where
  "ocr_id = \<lparr>student_id = Some ''B21DCVT020'', student_name = Some ''Tran Thi B'',
             confidence = 90, ocr_text = ''B21DCVT020 Tran Thi B''\<rparr>"

definition roster2 :: "student list" where
  "roster2 = [\<lparr>id' = 1, studentId = ''B21DCVT001'', name = ''Le Van C'', class' = ''D21''\<rparr>,
              \<lparr>id' = 2, studentId = ''B21DCVT002'', name = ''Nguyen Van A'', class' = ''D21''\<rparr>,
              \<lparr>id' = 3, studentId = ''B21DCVT003'', name = ''A Van Nguyen'', class' = ''D22''\<rparr>]"

definition store2 :: store where
  "store2 = \<lparr>students = roster2, attendances = [], unavailable = (\<lambda>e. False), trace = []\<rparr>"

definition ocr_name :: ocrResult where
  "ocr_name = \<lparr>student_id = Some ''B21DCVT999'', student_name = Some ''Van A Nguyen'',
               confidence = 80, ocr_text = ''B21DCVT999 Van A Nguyen''\<rparr>"

definition ocr_mid :: ocrResult where
  "ocr_mid = \<lparr>student_id = Some ''B21DCVT999'', student_name = Some ''Van A Nguyen'',
              confidence = 74, ocr_text = ''B21DCVT999 Van A Nguyen''\<rparr>"

definition request_of :: "ocrResult \<Rightarrow> request" where
  "request_of r = \<lparr>file' = True, ocr = OcrOk r, now = 7\<rparr>"

definition store0 :: store where
  "store0 = \<lparr>students = [], attendances = [], unavailable = (\<lambda>e. False), trace = []\<rparr>"

definition ocr_noname :: ocrResult where
  "ocr_noname = \<lparr>student_id = Some ''B21DCVT999'', student_name = Some [],
                 confidence = 90, ocr_text = ''B21DCVT999''\<rparr>"

section \<open>Facts about the string and set operations\<close>

lemma split_from_not_Nil: "split_from sep cur s \<noteq> []"
  by (induction s arbitrary: cur) auto

lemma split_on_length: "1 \<le> length (split_on sep s)"
  using split_from_not_Nil [of sep "[]" s] by (cases "split_from sep [] s") (auto simp: split_on_def)

lemma foldl_set_add_set: "set (foldl set_add acc xs) = set acc \<union> set xs"
  by (induction xs arbitrary: acc) (auto simp: set_add_def)

lemma foldl_set_add_distinct: "distinct acc \<Longrightarrow> distinct (foldl set_add acc xs)"
  by (induction xs arbitrary: acc) (auto simp: set_add_def)

lemma set_new_Set: "set (new_Set xs) = set xs"
  by (simp add: new_Set_def foldl_set_add_set)

lemma distinct_new_Set: "distinct (new_Set xs)"
  by (simp add: new_Set_def foldl_set_add_distinct)

lemma length_new_Set: "length (new_Set xs) = card (set xs)"
  using distinct_card [OF distinct_new_Set, of xs] by (simp add: set_new_Set)

lemma name_words_not_Nil: "name_words a \<noteq> []"
  by (simp add: name_words_def split_on_def split_from_not_Nil)

lemma union_of_length: "length (union_of ws1 ws2) = card (set ws1 \<union> set ws2)"
  by (simp add: union_of_def length_new_Set)

lemma union_of_pos: "ws1 \<noteq> [] \<Longrightarrow> 0 < length (union_of ws1 ws2)"
  by (cases ws1) (auto simp: union_of_length card_gt_0_iff)

lemma union_of_not_Nil: "ws1 \<noteq> [] \<Longrightarrow> union_of ws1 ws2 \<noteq> []"
  using union_of_pos [of ws1 ws2] by auto

lemma similarity_Num:
  "calculateNameSimilarity a b =
     Num (of_nat (length (intersection_of (name_words a) (name_words b)))
          / of_nat (card (set (name_words a) \<union> set (name_words b))))"
  using union_of_not_Nil [OF name_words_not_Nil, of a "name_words b"]
  by (simp add: calculateNameSimilarity_def Let_def js_div_def union_of_length)

lemma intersection_of_mset:
  "mset ws1 = mset ws1' \<Longrightarrow> set ws2 = set ws2' \<Longrightarrow>
   length (intersection_of ws1 ws2) = length (intersection_of ws1' ws2')"
proof -
  assume a: "mset ws1 = mset ws1'" and b: "set ws2 = set ws2'"
  have "mset (intersection_of ws1 ws2) = mset (intersection_of ws1' ws2')"
    using a b by (simp add: intersection_of_def)
  then show ?thesis by (rule mset_eq_length)
qed


text \<open>
  When the first name has no repeated word, the score is the Jaccard index of the two
  word sets and lies between 0 and 1.
\<close>

lemma intersection_of_distinct:
  "distinct ws1 \<Longrightarrow> length (intersection_of ws1 ws2) = card (set ws1 \<inter> set ws2)"
proof -
  assume d: "distinct ws1"
  then have "distinct (intersection_of ws1 ws2)" by (simp add: intersection_of_def)
  from distinct_card [OF this] show ?thesis by (simp add: intersection_of_def Int_def conj_commute)
qed

lemma similarity_jaccard_distinct:
  "distinct (name_words a) \<Longrightarrow>
   calculateNameSimilarity a b =
     Num (of_nat (card (set (name_words a) \<inter> set (name_words b)))
          / of_nat (card (set (name_words a) \<union> set (name_words b))))"
  by (simp add: similarity_Num intersection_of_distinct)

section \<open>Facts about the scan of the roster\<close>

lemma find_distinct_key:
  "distinct (map f xs) \<Longrightarrow> s \<in> set xs \<Longrightarrow> find (\<lambda>p. f p = f s) xs = Some s"
  by (induction xs) (auto simp: image_iff)

lemma best_scan_unbeaten:
  assumes q: "\<And>p. calculateNameSimilarity (name p) nm = Num (q p)"
  shows "\<forall>p\<in>set ps. \<not> (b < q p \<and> 7 / 10 \<le> q p) \<Longrightarrow> best_scan nm ps (bm, Num b) = (bm, Num b)"
  by (induction ps) (auto simp: q)

lemma best_scan_beaten:
  assumes q: "\<And>p. calculateNameSimilarity (name p) nm = Num (q p)"
  shows "\<exists>p\<in>set ps. b < q p \<and> 7 / 10 \<le> q p \<Longrightarrow>
         \<exists>pre s post. ps = pre @ s # post \<and> best_scan nm ps (bm, Num b) = (Some s, Num (q s))
            \<and> b < q s \<and> 7 / 10 \<le> q s \<and> (\<forall>p\<in>set pre. q p < q s) \<and> (\<forall>p\<in>set post. q p \<le> q s)"
proof (induction ps arbitrary: bm b)
  case Nil
  then show ?case by simp
next
  case (Cons p rest)
  show ?case
  proof (cases "b < q p \<and> 7 / 10 \<le> q p")
    case beat: True
    then have step: "best_scan nm (p # rest) (bm, Num b) = best_scan nm rest (Some p, Num (q p))"
      by (simp add: q)
    show ?thesis
    proof (cases "\<exists>p'\<in>set rest. q p < q p' \<and> 7 / 10 \<le> q p'")
      case True
      from Cons.IH [OF True, of "Some p"] obtain pre s post where
        d: "rest = pre @ s # post" and r: "best_scan nm rest (Some p, Num (q p)) = (Some s, Num (q s))"
        and b1: "q p < q s" and b2: "7 / 10 \<le> q s"
        and b3: "\<forall>x\<in>set pre. q x < q s" and b4: "\<forall>x\<in>set post. q x \<le> q s"
        by blast
      have "p # rest = (p # pre) @ s # post" using d by simp
      moreover have "best_scan nm (p # rest) (bm, Num b) = (Some s, Num (q s))" using step r by simp
      moreover have "b < q s" using beat b1 by simp
      moreover have "\<forall>x\<in>set (p # pre). q x < q s" using b1 b3 by simp
      ultimately show ?thesis using b2 b4 by blast
    next
      case False
      then have "best_scan nm rest (Some p, Num (q p)) = (Some p, Num (q p))"
        by (intro best_scan_unbeaten [OF q]) blast
      with step have "best_scan nm (p # rest) (bm, Num b) = (Some p, Num (q p))" by simp
      moreover have "p # rest = [] @ p # rest" by simp
      moreover have "\<forall>x\<in>set rest. q x \<le> q p" using False beat by force
      moreover have "\<forall>x\<in>set []. q x < q p" by simp
      ultimately show ?thesis using beat by blast
    qed
  next
    case nobeat: False
    then have step: "best_scan nm (p # rest) (bm, Num b) = best_scan nm rest (bm, Num b)"
      by (auto simp: q)
    from Cons.prems nobeat have "\<exists>p\<in>set rest. b < q p \<and> 7 / 10 \<le> q p" by auto
    from Cons.IH [OF this, of bm] obtain pre s post where
      d: "rest = pre @ s # post" and r: "best_scan nm rest (bm, Num b) = (Some s, Num (q s))"
      and b1: "b < q s" and b2: "7 / 10 \<le> q s"
      and b3: "\<forall>x\<in>set pre. q x < q s" and b4: "\<forall>x\<in>set post. q x \<le> q s"
      by blast
    have "q p < q s" using nobeat b1 b2 by force
    then have "\<forall>x\<in>set (p # pre). q x < q s" using b3 by simp
    moreover have "p # rest = (p # pre) @ s # post" using d by simp
    moreover have "best_scan nm (p # rest) (bm, Num b) = (Some s, Num (q s))" using step r by simp
    ultimately show ?thesis using b1 b2 b4 by blast
  qed
qed

text \<open>The scan from its initial state, in the comparisons of the source.\<close>

lemma best_scan_none:
  "\<forall>p\<in>set ps. \<not> js_ge (calculateNameSimilarity (name p) nm) (Num (7 / 10)) \<Longrightarrow>
   fst (best_scan nm ps (None, Num 0)) = None"
proof -
  assume h: "\<forall>p\<in>set ps. \<not> js_ge (calculateNameSimilarity (name p) nm) (Num (7 / 10))"
  define q where "q p = rat_of_nat (length (intersection_of (name_words (name p)) (name_words nm)))
      / rat_of_nat (card (set (name_words (name p)) \<union> set (name_words nm)))" for p :: student
  have q: "\<And>p. calculateNameSimilarity (name p) nm = Num (q p)"
    by (simp add: similarity_Num q_def)
  from h have "\<forall>p\<in>set ps. \<not> (0 < q p \<and> 7 / 10 \<le> q p)" by (simp add: q)
  from best_scan_unbeaten [of nm q ps 0 None, OF q this] show ?thesis by simp
qed

lemma best_scan_some:
  "\<exists>p\<in>set ps. js_ge (calculateNameSimilarity (name p) nm) (Num (7 / 10)) \<Longrightarrow>
   \<exists>pre s post. ps = pre @ s # post \<and> fst (best_scan nm ps (None, Num 0)) = Some s
     \<and> js_ge (calculateNameSimilarity (name s) nm) (Num (7 / 10))
     \<and> (\<forall>p\<in>set pre. js_gt (calculateNameSimilarity (name s) nm) (calculateNameSimilarity (name p) nm))
     \<and> (\<forall>p\<in>set post. js_ge (calculateNameSimilarity (name s) nm) (calculateNameSimilarity (name p) nm))"
proof -
  assume h: "\<exists>p\<in>set ps. js_ge (calculateNameSimilarity (name p) nm) (Num (7 / 10))"
  define q where "q p = rat_of_nat (length (intersection_of (name_words (name p)) (name_words nm)))
      / rat_of_nat (card (set (name_words (name p)) \<union> set (name_words nm)))" for p :: student
  have q: "\<And>p. calculateNameSimilarity (name p) nm = Num (q p)"
    by (simp add: similarity_Num q_def)
  from h have "\<exists>p\<in>set ps. 0 < q p \<and> 7 / 10 \<le> q p" by (force simp: q)
  from best_scan_beaten [of nm q ps 0 None, OF q this] obtain pre s post where
    d: "ps = pre @ s # post" and r: "best_scan nm ps (None, Num 0) = (Some s, Num (q s))"
    and b2: "7 / 10 \<le> q s"
    and b3: "\<forall>x\<in>set pre. q x < q s" and b4: "\<forall>x\<in>set post. q x \<le> q s"
    by blast
  have "fst (best_scan nm ps (None, Num 0)) = Some s" using r by simp
  moreover have "js_ge (calculateNameSimilarity (name s) nm) (Num (7 / 10))" using b2 by (simp add: q)
  moreover have "\<forall>p\<in>set pre. js_gt (calculateNameSimilarity (name s) nm) (calculateNameSimilarity (name p) nm)"
    using b3 by (simp add: q)
  moreover have "\<forall>p\<in>set post. js_ge (calculateNameSimilarity (name s) nm) (calculateNameSimilarity (name p) nm)"
    using b4 by (simp add: q)
  ultimately show ?thesis using d by blast
qed

lemma best_scan_SomeD:
  "fst (best_scan nm ps (None, Num 0)) = Some s \<Longrightarrow>
   s \<in> set ps \<and> js_ge (calculateNameSimilarity (name s) nm) (Num (7 / 10))"
proof -
  assume a: "fst (best_scan nm ps (None, Num 0)) = Some s"
  have "\<exists>p\<in>set ps. js_ge (calculateNameSimilarity (name p) nm) (Num (7 / 10))"
  proof (rule ccontr)
    assume "\<not> ?thesis"
    then have "fst (best_scan nm ps (None, Num 0)) = None" by (intro best_scan_none) blast
    with a show False by simp
  qed
  from best_scan_some [OF this] obtain pre s' post where
    d: "ps = pre @ s' # post" and r: "fst (best_scan nm ps (None, Num 0)) = Some s'"
    and g: "js_ge (calculateNameSimilarity (name s') nm) (Num (7 / 10))"
    by blast
  from r a have "s' = s" by simp
  with d g show ?thesis by simp
qed

section \<open>Facts about the handler\<close>

text \<open>The identifier look-up when no roster entry carries the identifier read by the OCR.\<close>

lemma find_None_key: "\<forall>s\<in>set xs. f s \<noteq> x \<Longrightarrow> find (\<lambda>p. f p = x) xs = None"
  by (induction xs) auto

lemma find_by_id_miss:
  assumes "\<forall>s\<in>set (students st). \<not> (truthy (student_id r) \<and> student_id r = Some (studentId s))"
    and "\<forall>e. \<not> unavailable st e"
  shows "find_by_id r st =
     (Value (None, []),
      st\<lparr>trace := trace st @ (case student_id r of None \<Rightarrow> [] | Some x \<Rightarrow> if x = [] then [] else [FindFirst x])\<rparr>)"
proof (cases "student_id r")
  case None
  then show ?thesis by (simp add: find_by_id_def)
next
  case (Some x)
  show ?thesis
  proof (cases "x = []")
    case True
    with Some show ?thesis by (simp add: find_by_id_def)
  next
    case False
    with Some assms(1) have "\<forall>s\<in>set (students st). studentId s \<noteq> x" by auto
    then have "find (\<lambda>p. studentId p = x) (students st) = None" by (rule find_None_key)
    with Some False assms(2) show ?thesis by (simp add: find_by_id_def student_findFirst_def)
  qed
qed

lemma find_SomeD: "find P xs = Some s \<Longrightarrow> s \<in> set xs \<and> P s"
  by (induction xs) (auto split: if_splits)

lemma find_NoneD: "find P xs = None \<Longrightarrow> s \<in> set xs \<Longrightarrow> \<not> P s"
  by (induction xs) (auto split: if_splits)

text \<open>What the two matching steps return and what they leave in the store.\<close>

lemma find_by_id_result:
  assumes "find_by_id r st = (out, st1)"
  shows "(\<exists>evs. st1 = st\<lparr>trace := trace st @ evs\<rparr> \<and> set evs \<subseteq> range FindFirst)"
    and "out = Value (None, mt) \<Longrightarrow>
           mt = [] \<and> (\<forall>s\<in>set (students st). \<not> (truthy (student_id r) \<and> student_id r = Some (studentId s)))"
    and "out = Value (Some s, mt) \<Longrightarrow>
           mt = ''ID_Match'' \<and> s \<in> set (students st) \<and> student_id r = Some (studentId s) \<and> studentId s \<noteq> []"
proof -
  show "\<exists>evs. st1 = st\<lparr>trace := trace st @ evs\<rparr> \<and> set evs \<subseteq> range FindFirst"
  proof (cases "student_id r")
    case None
    with assms have "st1 = st\<lparr>trace := trace st @ []\<rparr>" by (simp add: find_by_id_def)
    then show ?thesis by (intro exI [of _ "[]"]) simp
  next
    case (Some x)
    show ?thesis
    proof (cases "x = []")
      case True
      with Some assms have "st1 = st\<lparr>trace := trace st @ []\<rparr>" by (simp add: find_by_id_def)
      then show ?thesis by (intro exI [of _ "[]"]) simp
    next
      case False
      with Some assms have "st1 = st\<lparr>trace := trace st @ [FindFirst x]\<rparr>"
        by (auto simp: find_by_id_def student_findFirst_def Let_def split: if_splits option.splits)
      then show ?thesis by (intro exI [of _ "[FindFirst x]"]) simp
    qed
  qed
next
  assume "out = Value (None, mt)"
  with assms show "mt = [] \<and> (\<forall>s\<in>set (students st). \<not> (truthy (student_id r) \<and> student_id r = Some (studentId s)))"
    by (auto simp: find_by_id_def student_findFirst_def Let_def
             split: if_splits option.splits dest: find_NoneD)
next
  assume "out = Value (Some s, mt)"
  with assms show "mt = ''ID_Match'' \<and> s \<in> set (students st) \<and> student_id r = Some (studentId s) \<and> studentId s \<noteq> []"
    by (auto simp: find_by_id_def student_findFirst_def Let_def
             split: if_splits option.splits dest: find_SomeD)
qed

lemma find_by_name_skip:
  "\<not> (fst found = None \<and> truthy (student_name r) \<and> 75 \<le> confidence r) \<Longrightarrow>
   find_by_name r found st = (Value found, st)"
  by (cases "student_name r") (auto simp: find_by_name_def)

lemma find_by_name_run:
  assumes "student_name r = Some nm" and "nm \<noteq> []" and "75 \<le> confidence r"
  shows "find_by_name r (None, mt) st =
     (if unavailable st FindMany then (Thrown, st\<lparr>trace := trace st @ [FindMany]\<rparr>)
      else (Value (case fst (best_scan nm (students st) (None, Num 0)) of
                     None \<Rightarrow> (None, mt) | Some bestMatch \<Rightarrow> (Some bestMatch, ''Name_Match'')),
            st\<lparr>trace := trace st @ FindMany # map (\<lambda>p. Similarity (name p) nm) (students st)\<rparr>))"
  using assms by (simp add: find_by_name_def student_findMany_def Let_def split: option.splits)

lemma find_by_name_result:
  assumes "find_by_name r found st1 = (out, st2)"
  shows "\<exists>evs. st2 = st1\<lparr>trace := trace st1 @ evs\<rparr> \<and> (\<forall>a. Create a \<notin> set evs)
           \<and> (evs \<noteq> [] \<longrightarrow> fst found = None \<and> truthy (student_name r) \<and> 75 \<le> confidence r)"
    and "out = Value (None, mt) \<Longrightarrow> found = (None, mt)"
    and "out = Value (Some s, mt) \<Longrightarrow>
           found = (Some s, mt)
           \<or> (fst found = None \<and> mt = ''Name_Match'' \<and> s \<in> set (students st1)
               \<and> (\<exists>nm. student_name r = Some nm \<and> nm \<noteq> [] \<and> 75 \<le> confidence r
                     \<and> js_ge (calculateNameSimilarity (name s) nm) (Num (7 / 10))))"
proof -
  show "\<exists>evs. st2 = st1\<lparr>trace := trace st1 @ evs\<rparr> \<and> (\<forall>a. Create a \<notin> set evs)
           \<and> (evs \<noteq> [] \<longrightarrow> fst found = None \<and> truthy (student_name r) \<and> 75 \<le> confidence r)"
  proof (cases "fst found = None \<and> truthy (student_name r) \<and> 75 \<le> confidence r")
    case False
    from find_by_name_skip [OF False, of st1] assms have "st2 = st1\<lparr>trace := trace st1 @ []\<rparr>" by simp
    then show ?thesis by (intro exI [of _ "[]"]) simp
  next
    case True
    then obtain nm mt0 where n: "student_name r = Some nm" "nm \<noteq> []" "75 \<le> confidence r"
      and f: "found = (None, mt0)"
      by (cases "student_name r"; cases found) auto
    show ?thesis
    proof (cases "unavailable st1 FindMany")
      case True
      with assms f find_by_name_run [OF n, of mt0 st1]
      have "st2 = st1\<lparr>trace := trace st1 @ [FindMany]\<rparr>" by simp
      with n f show ?thesis by (intro exI [of _ "[FindMany]"]) simp
    next
      case False
      with assms f find_by_name_run [OF n, of mt0 st1]
      have "st2 = st1\<lparr>trace := trace st1 @ FindMany # map (\<lambda>p. Similarity (name p) nm) (students st1)\<rparr>"
        by simp
      with n f show ?thesis
        by (intro exI [of _ "FindMany # map (\<lambda>p. Similarity (name p) nm) (students st1)"]) auto
    qed
  qed
next
  assume o: "out = Value (None, mt)"
  show "found = (None, mt)"
  proof (cases "fst found = None \<and> truthy (student_name r) \<and> 75 \<le> confidence r")
    case False
    from find_by_name_skip [OF False, of st1] assms o show ?thesis by simp
  next
    case True
    then obtain nm mt0 where n: "student_name r = Some nm" "nm \<noteq> []" "75 \<le> confidence r"
      and f: "found = (None, mt0)"
      by (cases "student_name r"; cases found) auto
    from assms o f find_by_name_run [OF n, of mt0 st1] show ?thesis
      by (auto split: if_splits option.splits)
  qed
next
  assume o: "out = Value (Some s, mt)"
  show "found = (Some s, mt)
           \<or> (fst found = None \<and> mt = ''Name_Match'' \<and> s \<in> set (students st1)
               \<and> (\<exists>nm. student_name r = Some nm \<and> nm \<noteq> [] \<and> 75 \<le> confidence r
                     \<and> js_ge (calculateNameSimilarity (name s) nm) (Num (7 / 10))))"
  proof (cases "fst found = None \<and> truthy (student_name r) \<and> 75 \<le> confidence r")
    case False
    from find_by_name_skip [OF False, of st1] assms o show ?thesis by simp
  next
    case True
    then obtain nm mt0 where n: "student_name r = Some nm" "nm \<noteq> []" "75 \<le> confidence r"
      and f: "found = (None, mt0)"
      by (cases "student_name r"; cases found) auto
    from assms o f find_by_name_run [OF n, of mt0 st1]
    have "fst (best_scan nm (students st1) (None, Num 0)) = Some s" and "mt = ''Name_Match''"
      by (auto split: if_splits option.splits)
    with best_scan_SomeD [of nm "students st1" s] n f show ?thesis by simp
  qed
qed

text \<open>The handler, once the OCR reply is accepted, in terms of its two matching steps.\<close>

lemma POST_accepted:
  assumes "file' req" and "ocr req = OcrOk r" and "50 \<le> confidence r"
    and "find_by_id r st = (out1, st1)"
  shows "out1 = Thrown \<Longrightarrow> POST req st = (FailedToProcess, st1)"
    and "out1 = Value found \<Longrightarrow> find_by_name r found st1 = (Thrown, st2) \<Longrightarrow>
           POST req st = (FailedToProcess, st2)"
    and "out1 = Value found \<Longrightarrow> find_by_name r found st1 = (Value (None, mt), st2) \<Longrightarrow>
           POST req st = (StudentNotFound (student_id r) (student_name r) (confidence r) (ocr_text r), st2)"
    and "out1 = Value found \<Longrightarrow> find_by_name r found st1 = (Value (Some s, mt), st2) \<Longrightarrow>
           POST req st =
             (if unavailable st2 (Create \<lparr>att_studentId = id' s, status = mt, date = now req\<rparr>)
              then (FailedToProcess,
                    st2\<lparr>trace := trace st2 @ [Create \<lparr>att_studentId = id' s, status = mt, date = now req\<rparr>]\<rparr>)
              else (Success \<lparr>att_studentId = id' s, status = mt, date = now req\<rparr> mt s r,
                    st2\<lparr>trace := trace st2 @ [Create \<lparr>att_studentId = id' s, status = mt, date = now req\<rparr>],
                        attendances := attendances st2
                           @ [\<lparr>att_studentId = id' s, status = mt, date = now req\<rparr>]\<rparr>))"
  using assms by (simp_all add: POST_def attendance_create_def Let_def)

text \<open>The events of one request, and the request whose name step does not score.\<close>

lemma POST_trace:
  assumes "POST req st = (resp, st')"
  shows "\<exists>evs. trace st' = trace st @ evs
           \<and> ((FindMany \<in> set evs \<or> (\<exists>n1 n2. Similarity n1 n2 \<in> set evs)) \<longrightarrow>
                 (\<exists>r. ocr req = OcrOk r
                    \<and> (\<forall>s\<in>set (students st). \<not> (truthy (student_id r) \<and> student_id r = Some (studentId s)))
                    \<and> truthy (student_name r) \<and> 75 \<le> confidence r))"
proof -
  have trivial: ?thesis if "st' = st"
    using that by (intro exI [of _ "[]"]) simp
  show ?thesis
  proof (cases "file' req")
    case False
    with assms show ?thesis by (intro trivial) (auto simp: POST_def)
  next
    case hasfile: True
    show ?thesis
    proof (cases "ocr req")
      case OcrThrows
      with assms hasfile show ?thesis by (intro trivial) (auto simp: POST_def)
    next
      case (OcrNotOk errorText)
      with assms hasfile show ?thesis by (intro trivial) (auto simp: POST_def)
    next
      case ok: (OcrOk r)
      show ?thesis
      proof (cases "confidence r < 50")
        case True
        with assms hasfile ok show ?thesis by (intro trivial) (auto simp: POST_def)
      next
        case False
        then have conf: "50 \<le> confidence r" by simp
        obtain out1 st1 where id: "find_by_id r st = (out1, st1)" by (cases "find_by_id r st")
        from find_by_id_result(1) [OF id] obtain evs1 where
          e1: "st1 = st\<lparr>trace := trace st @ evs1\<rparr>" "set evs1 \<subseteq> range FindFirst" by blast
        then have n1: "FindMany \<notin> set evs1" "\<And>n1 n2. Similarity n1 n2 \<notin> set evs1" by auto
        note P = POST_accepted [OF hasfile ok conf id]
        show ?thesis
        proof (cases out1)
          case Thrown
          with P(1) assms have "trace st' = trace st @ evs1" using e1 by simp
          with n1 show ?thesis by blast
        next
          case (Value found)
          obtain out2 st2 where nm: "find_by_name r found st1 = (out2, st2)"
            by (cases "find_by_name r found st1")
          from find_by_name_result(1) [OF nm] obtain evs2 where
            e2: "st2 = st1\<lparr>trace := trace st1 @ evs2\<rparr>"
            and g2: "evs2 \<noteq> [] \<longrightarrow> fst found = None \<and> truthy (student_name r) \<and> 75 \<le> confidence r"
            by blast
          have gate: "\<exists>r. ocr req = OcrOk r
                    \<and> (\<forall>s\<in>set (students st). \<not> (truthy (student_id r) \<and> student_id r = Some (studentId s)))
                    \<and> truthy (student_name r) \<and> 75 \<le> confidence r" if "evs2 \<noteq> []"
          proof -
            from that g2 have f: "fst found = None" and t: "truthy (student_name r)" "75 \<le> confidence r"
              by simp_all
            from f obtain mt where "found = (None, mt)" by (cases found) auto
            with find_by_id_result(2) [OF id, of mt] Value
            have "\<forall>s\<in>set (students st). \<not> (truthy (student_id r) \<and> student_id r = Some (studentId s))"
              by simp
            with ok t show ?thesis by blast
          qed
          have "\<exists>evs3. trace st' = trace st2 @ evs3 \<and> FindMany \<notin> set evs3 \<and> (\<forall>n1 n2. Similarity n1 n2 \<notin> set evs3)"
          proof (cases out2)
            case Thrown
            with P(2) [OF Value] nm assms have "trace st' = trace st2 @ []" by simp
            then show ?thesis by (intro exI [of _ "[]"]) simp
          next
            case v2: (Value res)
            obtain ms mt where res: "res = (ms, mt)" by (cases res)
            show ?thesis
            proof (cases ms)
              case None
              with P(3) [OF Value, of mt st2] nm v2 res assms have "trace st' = trace st2 @ []" by simp
              then show ?thesis by (intro exI [of _ "[]"]) simp
            next
              case (Some s)
              from nm v2 res Some have nm': "find_by_name r found st1 = (Value (Some s, mt), st2)" by simp
              from P(4) [OF Value nm'] assms
              have "trace st' = trace st2 @ [Create \<lparr>att_studentId = id' s, status = mt, date = now req\<rparr>]"
                by (auto split: if_splits)
              then show ?thesis
                by (intro exI [of _ "[Create \<lparr>att_studentId = id' s, status = mt, date = now req\<rparr>]"]) simp
            qed
          qed
          then obtain evs3 where e3: "trace st' = trace st2 @ evs3" "FindMany \<notin> set evs3"
            "\<And>n1 n2. Similarity n1 n2 \<notin> set evs3" by blast
          have tr: "trace st' = trace st @ (evs1 @ evs2 @ evs3)" using e1 e2 e3 by simp
          have "(FindMany \<in> set (evs1 @ evs2 @ evs3) \<or> (\<exists>n1 n2. Similarity n1 n2 \<in> set (evs1 @ evs2 @ evs3)))
                  \<longrightarrow> evs2 \<noteq> []"
            using n1 e3 by auto
          with tr gate show ?thesis by blast
        qed
      qed
    qed
  qed
qed

lemma POST_name_step_skipped:
  assumes "file' req" and "ocr req = OcrOk r" and "50 \<le> confidence r"
    and "\<forall>s\<in>set (students st). \<not> (truthy (student_id r) \<and> student_id r = Some (studentId s))"
    and "\<forall>e. \<not> unavailable st e"
    and "\<not> truthy (student_name r) \<or> students st = [] \<or> confidence r < 75"
  shows "POST req st =
     (StudentNotFound (student_id r) (student_name r) (confidence r) (ocr_text r),
      st\<lparr>trace := trace st
            @ (case student_id r of None \<Rightarrow> [] | Some x \<Rightarrow> if x = [] then [] else [FindFirst x])
            @ (if truthy (student_name r) \<and> 75 \<le> confidence r then [FindMany] else [])\<rparr>)"
proof -
  define idq where "idq = (case student_id r of None \<Rightarrow> [] | Some x \<Rightarrow> if x = [] then [] else [FindFirst x])"
  define st1 where "st1 = st\<lparr>trace := trace st @ idq\<rparr>"
  have id: "find_by_id r st = (Value (None, []), st1)"
    using find_by_id_miss [OF assms(4) assms(5)] by (simp add: st1_def idq_def)
  note P = POST_accepted(3) [OF assms(1) assms(2) assms(3) id refl]
  show ?thesis
  proof (cases "truthy (student_name r) \<and> 75 \<le> confidence r")
    case False
    then have "find_by_name r (None, []) st1 = (Value (None, []), st1)"
      by (intro find_by_name_skip) simp
    from P [OF this] False show ?thesis by (simp add: st1_def idq_def)
  next
    case True
    with assms(6) have empty: "students st = []" by auto
    from True obtain nm where n: "student_name r = Some nm" "nm \<noteq> []" "75 \<le> confidence r"
      by (cases "student_name r") auto
    from find_by_name_run [OF n, of "[]" st1] assms(5) empty
    have "find_by_name r (None, []) st1 = (Value (None, []), st1\<lparr>trace := trace st1 @ [FindMany]\<rparr>)"
      by (simp add: st1_def)
    from P [OF this] True show ?thesis by (simp add: st1_def idq_def)
  qed
qed

section \<open>Properties of the similarity score\<close>

text \<open>
  C5. The score is claimed to be the Jaccard index of the two word sets, within 0 and 1,
  with no effect of a repeated word. The array \<^verbatim>\<open>intersection\<close> is a filter of
  \<^verbatim>\<open>words1\<close> and keeps its repetitions, while \<^verbatim>\<open>union\<close> goes through a
  \<^verbatim>\<open>Set\<close>: for the names \<^verbatim>\<open>An An\<close> and \<^verbatim>\<open>An\<close> the score is 2, where the
  Jaccard index is 1.
\<close>

theorem similarity_exceeds_one:
  "calculateNameSimilarity ''An An'' ''An'' = Num 2
   \<and> rat_of_nat (card (set (name_words ''An An'') \<inter> set (name_words ''An'')))
       / rat_of_nat (card (set (name_words ''An An'') \<union> set (name_words ''An''))) = 1"
proof -
  have 1: "name_words ''An An'' = [''an'', ''an'']" by code_simp
  have 2: "name_words ''An'' = [''an'']" by code_simp
  have "calculateNameSimilarity ''An An'' ''An'' = Num 2" by code_simp
  then show ?thesis unfolding 1 2 by simp
qed



text \<open>
  C6. The score is claimed to be symmetric. With a repeated word in one name only, the
  two orders of the arguments give the scores 2 and 1.
\<close>

theorem similarity_asymmetric:
  "calculateNameSimilarity ''An An'' ''An'' = Num 2 \<and> calculateNameSimilarity ''An'' ''An An'' = Num 1"
  by code_simp

text \<open>
  C7, as amended. Two names with no common word score 0. Two empty names score 1, not 0:
  each of them splits into the one empty word, which the two share, and the division is
  1 by 1.
\<close>

theorem similarity_disjoint_and_empty:
  "(set (name_words a) \<inter> set (name_words b) = {} \<longrightarrow> calculateNameSimilarity a b = Num 0)
   \<and> calculateNameSimilarity [] [] = Num 1"
proof (intro conjI impI)
  assume "set (name_words a) \<inter> set (name_words b) = {}"
  then have "intersection_of (name_words a) (name_words b) = []"
    by (auto simp: intersection_of_def filter_empty_conv)
  then show "calculateNameSimilarity a b = Num 0" by (simp add: similarity_Num)
next
  show "calculateNameSimilarity [] [] = Num 1" by code_simp
qed


theorem similarity_disjoint_and_empty_witness:
  "set (name_words ''Le Van C'') \<inter> set (name_words ''Nobody Matching'') = {}
   \<and> calculateNameSimilarity ''Le Van C'' ''Nobody Matching'' = Num 0"
proof -
  have 1: "name_words ''Le Van C'' = [''le'', ''van'', ''c'']" by code_simp
  have 2: "name_words ''Nobody Matching'' = [''nobody'', ''matching'']" by code_simp
  have h: "set (name_words ''Le Van C'') \<inter> set (name_words ''Nobody Matching'') = {}"
    unfolding 1 2 by simp
  with similarity_disjoint_and_empty [of "''Le Van C''" "''Nobody Matching''"] show ?thesis by blast
qed


theorem similarity_empty_counterexample: "calculateNameSimilarity [] [] \<noteq> Num 0"
  by code_simp

text \<open>
  C8. The score does not depend on the order of the words: two names whose words are a
  permutation of the words of \<open>a\<close>, and likewise for \<open>b\<close>, get the score of \<open>a\<close>
  and \<open>b\<close>; and \<^verbatim>\<open>Nguyen Van A\<close> scores 1 against \<^verbatim>\<open>A Van Nguyen\<close> as it does
  against itself.
\<close>

theorem similarity_word_order:
  "(mset (name_words a) = mset (name_words a') \<and> mset (name_words b) = mset (name_words b')
      \<longrightarrow> calculateNameSimilarity a b = calculateNameSimilarity a' b')
   \<and> calculateNameSimilarity ''Nguyen Van A'' ''A Van Nguyen'' = Num 1
   \<and> calculateNameSimilarity ''Nguyen Van A'' ''Nguyen Van A'' = Num 1"
proof (intro conjI impI)
  assume h: "mset (name_words a) = mset (name_words a') \<and> mset (name_words b) = mset (name_words b')"
  then have s1: "set (name_words a) = set (name_words a')" and s2: "set (name_words b) = set (name_words b')"
    by (metis mset_eq_setD)+
  from h s2 have "length (intersection_of (name_words a) (name_words b))
      = length (intersection_of (name_words a') (name_words b'))"
    by (intro intersection_of_mset) simp_all
  with s1 s2 show "calculateNameSimilarity a b = calculateNameSimilarity a' b'"
    by (simp add: similarity_Num)
next
  show "calculateNameSimilarity ''Nguyen Van A'' ''A Van Nguyen'' = Num 1" by code_simp
next
  show "calculateNameSimilarity ''Nguyen Van A'' ''Nguyen Van A'' = Num 1" by code_simp
qed


theorem similarity_word_order_witness:
  "mset (name_words ''Nguyen Van A'') = mset (name_words ''A  van NGUYEN'')
   \<and> mset (name_words ''Tran Thi B'') = mset (name_words ''Thi B Tran'')
   \<and> calculateNameSimilarity ''Nguyen Van A'' ''Tran Thi B'' = calculateNameSimilarity ''A  van NGUYEN'' ''Thi B Tran''"
proof -
  have 1: "name_words ''Nguyen Van A'' = [''nguyen'', ''van'', ''a'']" by code_simp
  have 2: "name_words ''A  van NGUYEN'' = [''a'', ''van'', ''nguyen'']" by code_simp
  have 3: "name_words ''Tran Thi B'' = [''tran'', ''thi'', ''b'']" by code_simp
  have 4: "name_words ''Thi B Tran'' = [''thi'', ''b'', ''tran'']" by code_simp
  have h: "mset (name_words ''Nguyen Van A'') = mset (name_words ''A  van NGUYEN'')
   \<and> mset (name_words ''Tran Thi B'') = mset (name_words ''Thi B Tran'')"
    unfolding 1 2 3 4 by (simp add: add_mset_commute)
  with similarity_word_order [of "''Nguyen Van A''" "''A  van NGUYEN''" "''Tran Thi B''" "''Thi B Tran''"]
  show ?thesis by blast
qed


text \<open>
  C10. The score is defined for every pair of strings: a split gives at least one piece,
  so each name has at least one word, the union of the two word lists is not empty, and
  the quotient is a number, neither \<open>NaN\<close> nor \<open>Infinity\<close>.
\<close>

theorem similarity_total:
  "1 \<le> length (split_on sep s)
   \<and> 1 \<le> length (name_words name1)
   \<and> length (union_of (name_words name1) (name_words name2)) \<noteq> 0
   \<and> (\<exists>q. calculateNameSimilarity name1 name2 = Num q)"
  using split_on_length [of sep s] split_on_length [of "CHR '' ''" "normalizeVietnameseName name1"]
    union_of_pos [OF name_words_not_Nil, of name1 "name_words name2"]
  by (simp add: similarity_Num name_words_def)


theorem similarity_total_witness:
  "1 \<le> length (split_on CHR '' '' [])
   \<and> 1 \<le> length (name_words [])
   \<and> length (union_of (name_words []) (name_words [])) \<noteq> 0
   \<and> (\<exists>q. calculateNameSimilarity [] [] = Num q)"
  using similarity_total [of "CHR '' ''" "[]" "[]" "[]"] by simp

section \<open>Properties of the handler\<close>

text \<open>
  C1. An accepted OCR result (confidence at least 50) with a non-empty identifier that a
  roster entry carries resolves that entry with the tag \<^verbatim>\<open>ID_Match\<close>: the handler
  sends the one look-up and the creation of the record, reads no roster and computes no
  score, whatever the OCR name and the names of the roster are. The identifiers of the
  roster are distinct (the unique index \<^verbatim>\<open>Student_studentId_key\<close>), and the store
  answers the two queries.
\<close>

theorem id_match_resolves:
  assumes "file' req" and "ocr req = OcrOk r" and "50 \<le> confidence r"
    and "student_id r = Some x" and "x \<noteq> []"
    and "s \<in> set (students st)" and "studentId s = x"
    and "distinct (map studentId (students st))"
    and "\<not> unavailable st (FindFirst x)"
    and "\<not> unavailable st (Create \<lparr>att_studentId = id' s, status = ''ID_Match'', date = now req\<rparr>)"
  shows "POST req st =
           (Success \<lparr>att_studentId = id' s, status = ''ID_Match'', date = now req\<rparr> ''ID_Match'' s r,
            st\<lparr>trace := trace st @ [FindFirst x,
                     Create \<lparr>att_studentId = id' s, status = ''ID_Match'', date = now req\<rparr>],
               attendances := attendances st
                     @ [\<lparr>att_studentId = id' s, status = ''ID_Match'', date = now req\<rparr>]\<rparr>)"
proof -
  have f: "find (\<lambda>p. studentId p = x) (students st) = Some s"
    using find_distinct_key [of studentId "students st" s] assms by simp
  have 1: "find_by_id r st = (Value (Some s, ''ID_Match''), st\<lparr>trace := trace st @ [FindFirst x]\<rparr>)"
    using assms f by (simp add: find_by_id_def student_findFirst_def)
  have 2: "find_by_name r (Some s, ''ID_Match'') st' = (Value (Some s, ''ID_Match''), st')" for st'
    by (simp add: find_by_name_def split: option.splits)
  show ?thesis
    using assms by (simp add: POST_def 1 2 attendance_create_def)
qed

theorem id_match_resolves_witness:
  "file' \<lparr>file' = True, ocr = OcrOk ocr_id, now = 7\<rparr>
   \<and> 50 \<le> confidence ocr_id
   \<and> student_id ocr_id = Some ''B21DCVT020''
   \<and> roster1 ! 0 \<in> set (students store1)
   \<and> studentId (roster1 ! 0) = ''B21DCVT020''
   \<and> distinct (map studentId (students store1))
   \<and> calculateNameSimilarity (name (roster1 ! 1)) ''Tran Thi B'' = Num 1
   \<and> fst (POST \<lparr>file' = True, ocr = OcrOk ocr_id, now = 7\<rparr> store1)
       = Success \<lparr>att_studentId = 1, status = ''ID_Match'', date = 7\<rparr> ''ID_Match'' (roster1 ! 0) ocr_id
   \<and> trace (snd (POST \<lparr>file' = True, ocr = OcrOk ocr_id, now = 7\<rparr> store1))
       = [FindFirst ''B21DCVT020'', Create \<lparr>att_studentId = 1, status = ''ID_Match'', date = 7\<rparr>]"
proof -
  have s: "calculateNameSimilarity (name (roster1 ! 1)) ''Tran Thi B'' = Num 1"
    unfolding roster1_def by code_simp
  have h: "roster1 ! 0 \<in> set (students store1)" "studentId (roster1 ! 0) = ''B21DCVT020''"
    "distinct (map studentId (students store1))" "student_id ocr_id = Some ''B21DCVT020''"
    "50 \<le> confidence ocr_id"
    by (simp_all add: roster1_def store1_def ocr_id_def)
  have u: "\<not> unavailable store1 e" for e by (simp add: store1_def)
  from id_match_resolves [of "\<lparr>file' = True, ocr = OcrOk ocr_id, now = 7\<rparr>" ocr_id
      "''B21DCVT020''" "roster1 ! 0" store1, OF _ _ h(5) h(4) _ h(1) h(2) h(3) u u]
  have "POST \<lparr>file' = True, ocr = OcrOk ocr_id, now = 7\<rparr> store1 =
     (Success \<lparr>att_studentId = id' (roster1 ! 0), status = ''ID_Match'', date = 7\<rparr> ''ID_Match'' (roster1 ! 0) ocr_id,
      store1\<lparr>trace := trace store1 @ [FindFirst ''B21DCVT020'',
                     Create \<lparr>att_studentId = id' (roster1 ! 0), status = ''ID_Match'', date = 7\<rparr>],
               attendances := attendances store1
                     @ [\<lparr>att_studentId = id' (roster1 ! 0), status = ''ID_Match'', date = 7\<rparr>]\<rparr>)"
    by simp
  moreover have "id' (roster1 ! 0) = 1" by (simp add: roster1_def)
  moreover have "trace store1 = []" by (simp add: store1_def)
  ultimately show ?thesis using s h by simp
qed

text \<open>
  C3. An OCR result with a confidence below 50 is answered with the low-confidence
  failure, carrying the confidence and the raw text; the store is left as it was, so
  that no look-up, no roster read and no creation of a record took place.
\<close>

theorem low_confidence_rejected:
  "file' req \<Longrightarrow> ocr req = OcrOk r \<Longrightarrow> confidence r < 50 \<Longrightarrow>
   POST req st = (LowConfidence (confidence r) (ocr_text r), st)"
  by (simp add: POST_def)

theorem low_confidence_rejected_witness:
  "file' \<lparr>file' = True, ocr = OcrOk ocr_low, now = 7\<rparr>
   \<and> ocr \<lparr>file' = True, ocr = OcrOk ocr_low, now = 7\<rparr> = OcrOk ocr_low
   \<and> confidence ocr_low < 50
   \<and> POST \<lparr>file' = True, ocr = OcrOk ocr_low, now = 7\<rparr> store1
       = (LowConfidence 40 ''B21DCVT020 Nguyen Van A'', store1)"
  using low_confidence_rejected [of "\<lparr>file' = True, ocr = OcrOk ocr_low, now = 7\<rparr>" ocr_low store1]
  by (simp add: ocr_low_def)

text \<open>
  C9. Whatever the request and the store, the handler appends one record to the
  attendance table when it answers with success, and none otherwise. The record carries
  the key of the resolved student, who is in the roster, the tag of the step that
  resolved the student (by identifier: the OCR identifier is the student's; by name: the
  score of the student's name is at least 0.7) and the time of the request.
\<close>

theorem record_created_iff_resolved:
  assumes "POST req st = (resp, st')"
  shows "case resp of
           Success a mt s r \<Rightarrow>
             attendances st' = attendances st @ [a]
             \<and> a = \<lparr>att_studentId = id' s, status = mt, date = now req\<rparr>
             \<and> s \<in> set (students st) \<and> ocr req = OcrOk r
             \<and> ((mt = ''ID_Match'' \<and> student_id r = Some (studentId s) \<and> studentId s \<noteq> [])
                 \<or> (mt = ''Name_Match''
                     \<and> (\<exists>nm. student_name r = Some nm \<and> nm \<noteq> []
                            \<and> js_ge (calculateNameSimilarity (name s) nm) (Num (7 / 10)))))
         | _ \<Rightarrow> attendances st' = attendances st"
proof (cases "file' req")
  case False
  with assms show ?thesis by (auto simp: POST_def)
next
  case hasfile: True
  show ?thesis
  proof (cases "ocr req")
    case OcrThrows
    with assms hasfile show ?thesis by (auto simp: POST_def)
  next
    case (OcrNotOk errorText)
    with assms hasfile show ?thesis by (auto simp: POST_def)
  next
    case ok: (OcrOk r)
    show ?thesis
    proof (cases "confidence r < 50")
      case True
      with assms hasfile ok show ?thesis by (auto simp: POST_def)
    next
      case False
      then have conf: "50 \<le> confidence r" by simp
      obtain out1 st1 where id: "find_by_id r st = (out1, st1)" by (cases "find_by_id r st")
      from find_by_id_result(1) [OF id] have fr1: "attendances st1 = attendances st" "students st1 = students st"
        by auto
      note P = POST_accepted [OF hasfile ok conf id]
      show ?thesis
      proof (cases out1)
        case Thrown
        with P(1) assms fr1 show ?thesis by auto
      next
        case (Value found)
        obtain out2 st2 where nm: "find_by_name r found st1 = (out2, st2)"
          by (cases "find_by_name r found st1")
        from find_by_name_result(1) [OF nm] have fr2: "attendances st2 = attendances st1" "students st2 = students st1"
          by auto
        show ?thesis
        proof (cases out2)
          case Thrown
          with P(2) [OF Value] nm assms fr1 fr2 show ?thesis by auto
        next
          case v2: (Value res)
          obtain ms mt where res: "res = (ms, mt)" by (cases res)
          show ?thesis
          proof (cases ms)
            case None
            with P(3) [OF Value, of mt st2] nm v2 res assms fr1 fr2 show ?thesis by auto
          next
            case (Some s)
            let ?a = "\<lparr>att_studentId = id' s, status = mt, date = now req\<rparr>"
            from nm v2 res Some have nm': "find_by_name r found st1 = (Value (Some s, mt), st2)" by simp
            have how: "(mt = ''ID_Match'' \<and> student_id r = Some (studentId s) \<and> studentId s \<noteq> [] \<and> s \<in> set (students st))
                 \<or> (mt = ''Name_Match'' \<and> s \<in> set (students st)
                     \<and> (\<exists>nm. student_name r = Some nm \<and> nm \<noteq> []
                            \<and> js_ge (calculateNameSimilarity (name s) nm) (Num (7 / 10))))"
            proof -
              from find_by_name_result(3) [OF nm', of s mt]
              consider (a) "found = (Some s, mt)"
                | (b) "mt = ''Name_Match''" "s \<in> set (students st1)"
                    "\<exists>nm. student_name r = Some nm \<and> nm \<noteq> [] \<and> 75 \<le> confidence r
                       \<and> js_ge (calculateNameSimilarity (name s) nm) (Num (7 / 10))"
                by blast
              then show ?thesis
              proof cases
                case a
                with find_by_id_result(3) [OF id, of s mt] Value show ?thesis by simp
              next
                case b
                with fr1 show ?thesis by auto
              qed
            qed
            show ?thesis
            proof (cases "unavailable st2 (Create ?a)")
              case True
              with P(4) [OF Value nm'] assms fr1 fr2 show ?thesis by auto
            next
              case False
              with P(4) [OF Value nm'] assms
              have "resp = Success ?a mt s r" and "attendances st' = attendances st2 @ [?a]" by auto
              with fr1 fr2 how ok show ?thesis by auto
            qed
          qed
        qed
      qed
    qed
  qed
qed

theorem record_created_iff_resolved_witness:
  "POST (request_of ocr_name) store2
     = (Success \<lparr>att_studentId = 2, status = ''Name_Match'', date = 7\<rparr> ''Name_Match'' (roster2 ! 1) ocr_name,
        snd (POST (request_of ocr_name) store2))
   \<and> attendances (snd (POST (request_of ocr_name) store2))
        = attendances store2 @ [\<lparr>att_studentId = 2, status = ''Name_Match'', date = 7\<rparr>]
   \<and> roster2 ! 1 \<in> set (students store2)
   \<and> js_ge (calculateNameSimilarity (name (roster2 ! 1)) ''Van A Nguyen'') (Num (7 / 10))
   \<and> POST (request_of ocr_mid) store2
     = (StudentNotFound (Some ''B21DCVT999'') (Some ''Van A Nguyen'') 74 ''B21DCVT999 Van A Nguyen'',
        snd (POST (request_of ocr_mid) store2))
   \<and> attendances (snd (POST (request_of ocr_mid) store2)) = attendances store2"
proof -
  have ev: "fst (POST (request_of ocr_name) store2) =
        Success \<lparr>att_studentId = 2, status = ''Name_Match'', date = 7\<rparr> ''Name_Match'' (roster2 ! 1) ocr_name"
    by code_simp
  then have p: "POST (request_of ocr_name) store2
     = (Success \<lparr>att_studentId = 2, status = ''Name_Match'', date = 7\<rparr> ''Name_Match'' (roster2 ! 1) ocr_name,
        snd (POST (request_of ocr_name) store2))"
    by (metis prod.collapse)
  have ev': "fst (POST (request_of ocr_mid) store2) =
        StudentNotFound (Some ''B21DCVT999'') (Some ''Van A Nguyen'') 74 ''B21DCVT999 Van A Nguyen''"
    by code_simp
  then have p': "POST (request_of ocr_mid) store2
     = (StudentNotFound (Some ''B21DCVT999'') (Some ''Van A Nguyen'') 74 ''B21DCVT999 Van A Nguyen'',
        snd (POST (request_of ocr_mid) store2))"
    by (metis prod.collapse)
  have nm: "student_name ocr_name = Some ''Van A Nguyen''" by (simp add: ocr_name_def)
  from record_created_iff_resolved [OF p] record_created_iff_resolved [OF p'] p p' nm
  show ?thesis by simp
qed

text \<open>
  C2. When the name step runs (no roster entry carries the OCR identifier, the OCR name
  is not empty, the confidence is at least 75 and the store answers), the handler scores
  the name of every roster entry against the OCR name. If some entry scores at least 0.7,
  the handler resolves, with the tag \<^verbatim>\<open>Name_Match\<close>, the entry \<open>s\<close> that scores at
  least 0.7, strictly more than every entry before it in the roster and at least as much
  as every entry after it: the first entry of the highest score. If no entry scores at
  least 0.7, the answer is that no student was found, and no record is created.
\<close>

theorem name_match_selects:
  assumes "file' req" and "ocr req = OcrOk r" and "75 \<le> confidence r"
    and "student_name r = Some nm" and "nm \<noteq> []"
    and "\<forall>s\<in>set (students st). \<not> (truthy (student_id r) \<and> student_id r = Some (studentId s))"
    and "\<forall>e. \<not> unavailable st e"
  shows "(\<forall>p\<in>set (students st). Similarity (name p) nm \<in> set (trace (snd (POST req st))))
    \<and> ((\<forall>p\<in>set (students st). \<not> js_ge (calculateNameSimilarity (name p) nm) (Num (7 / 10))) \<longrightarrow>
          fst (POST req st) = StudentNotFound (student_id r) (student_name r) (confidence r) (ocr_text r)
          \<and> attendances (snd (POST req st)) = attendances st)
    \<and> ((\<exists>p\<in>set (students st). js_ge (calculateNameSimilarity (name p) nm) (Num (7 / 10))) \<longrightarrow>
          (\<exists>pre s post. students st = pre @ s # post
             \<and> js_ge (calculateNameSimilarity (name s) nm) (Num (7 / 10))
             \<and> (\<forall>p\<in>set pre. js_gt (calculateNameSimilarity (name s) nm) (calculateNameSimilarity (name p) nm))
             \<and> (\<forall>p\<in>set post. js_ge (calculateNameSimilarity (name s) nm) (calculateNameSimilarity (name p) nm))
             \<and> fst (POST req st) =
                  Success \<lparr>att_studentId = id' s, status = ''Name_Match'', date = now req\<rparr> ''Name_Match'' s r))"
proof -
  define idq where "idq = (case student_id r of None \<Rightarrow> [] | Some x \<Rightarrow> if x = [] then [] else [FindFirst x])"
  define st1 where "st1 = st\<lparr>trace := trace st @ idq\<rparr>"
  define st2 where "st2 = st1\<lparr>trace := trace st1 @ FindMany # map (\<lambda>p. Similarity (name p) nm) (students st1)\<rparr>"
  define best where "best = fst (best_scan nm (students st) (None, Num 0))"
  have conf: "50 \<le> confidence r" using assms(3) by simp
  have id: "find_by_id r st = (Value (None, []), st1)"
    using find_by_id_miss [OF assms(6) assms(7)] by (simp add: st1_def idq_def)
  have s1: "students st1 = students st" "attendances st1 = attendances st" "unavailable st1 = unavailable st"
    by (simp_all add: st1_def)
  have s2: "students st2 = students st" "attendances st2 = attendances st" "unavailable st2 = unavailable st"
    by (simp_all add: st2_def s1)
  have nmr: "find_by_name r (None, []) st1 =
      (Value (case best of None \<Rightarrow> (None, []) | Some bestMatch \<Rightarrow> (Some bestMatch, ''Name_Match'')), st2)"
    using find_by_name_run [OF assms(4) assms(5) assms(3), of "[]" st1] assms(7)
    by (simp add: s1 st2_def best_def)
  note P = POST_accepted [OF assms(1) assms(2) conf id]
  have tr: "set (map (\<lambda>p. Similarity (name p) nm) (students st)) \<subseteq> set (trace (snd (POST req st)))"
  proof (cases best)
    case None
    with nmr have "find_by_name r (None, []) st1 = (Value (None, []), st2)" by simp
    from P(3) [OF refl this] have "POST req st = (StudentNotFound (student_id r) (student_name r) (confidence r) (ocr_text r), st2)" .
    then show ?thesis by (auto simp: st2_def s1)
  next
    case (Some s)
    with nmr have "find_by_name r (None, []) st1 = (Value (Some s, ''Name_Match''), st2)" by simp
    from P(4) [OF refl this] assms(7)
    have "trace (snd (POST req st)) = trace st2 @ [Create \<lparr>att_studentId = id' s, status = ''Name_Match'', date = now req\<rparr>]"
      by (simp add: s2)
    then show ?thesis by (auto simp: st2_def s1)
  qed
  have none: "fst (POST req st) = StudentNotFound (student_id r) (student_name r) (confidence r) (ocr_text r)
          \<and> attendances (snd (POST req st)) = attendances st"
    if h: "\<forall>p\<in>set (students st). \<not> js_ge (calculateNameSimilarity (name p) nm) (Num (7 / 10))"
  proof -
    from best_scan_none [OF h] have "best = None" by (simp add: best_def)
    with nmr have "find_by_name r (None, []) st1 = (Value (None, []), st2)" by simp
    from P(3) [OF refl this] show ?thesis by (simp add: s2)
  qed
  have some: "\<exists>pre s post. students st = pre @ s # post
             \<and> js_ge (calculateNameSimilarity (name s) nm) (Num (7 / 10))
             \<and> (\<forall>p\<in>set pre. js_gt (calculateNameSimilarity (name s) nm) (calculateNameSimilarity (name p) nm))
             \<and> (\<forall>p\<in>set post. js_ge (calculateNameSimilarity (name s) nm) (calculateNameSimilarity (name p) nm))
             \<and> fst (POST req st) =
                  Success \<lparr>att_studentId = id' s, status = ''Name_Match'', date = now req\<rparr> ''Name_Match'' s r"
    if h: "\<exists>p\<in>set (students st). js_ge (calculateNameSimilarity (name p) nm) (Num (7 / 10))"
  proof -
    from best_scan_some [OF h] obtain pre s post where
      d: "students st = pre @ s # post" and b: "best = Some s"
      and g: "js_ge (calculateNameSimilarity (name s) nm) (Num (7 / 10))"
      and b3: "\<forall>p\<in>set pre. js_gt (calculateNameSimilarity (name s) nm) (calculateNameSimilarity (name p) nm)"
      and b4: "\<forall>p\<in>set post. js_ge (calculateNameSimilarity (name s) nm) (calculateNameSimilarity (name p) nm)"
      unfolding best_def by blast
    from nmr b have "find_by_name r (None, []) st1 = (Value (Some s, ''Name_Match''), st2)" by simp
    from P(4) [OF refl this] assms(7)
    have "fst (POST req st) = Success \<lparr>att_studentId = id' s, status = ''Name_Match'', date = now req\<rparr> ''Name_Match'' s r"
      by (simp add: s2)
    with d g b3 b4 show ?thesis by blast
  qed
  from tr have "\<forall>p\<in>set (students st). Similarity (name p) nm \<in> set (trace (snd (POST req st)))"
    by auto
  with none some show ?thesis by blast
qed

theorem name_match_selects_witness:
  "file' (request_of ocr_name) \<and> ocr (request_of ocr_name) = OcrOk ocr_name
   \<and> 75 \<le> confidence ocr_name \<and> student_name ocr_name = Some ''Van A Nguyen''
   \<and> \<not> (\<exists>s\<in>set (students store2).
            truthy (student_id ocr_name) \<and> student_id ocr_name = Some (studentId s))
   \<and> (\<forall>e. \<not> unavailable store2 e)
   \<and> map (\<lambda>p. calculateNameSimilarity (name p) ''Van A Nguyen'') (students store2)
        = [Num (1 / 5), Num 1, Num 1]
   \<and> set (map (\<lambda>p. Similarity (name p) ''Van A Nguyen'') (students store2))
        \<subseteq> set (trace (snd (POST (request_of ocr_name) store2)))
   \<and> (\<exists>pre s post. students store2 = pre @ s # post
          \<and> js_ge (calculateNameSimilarity (name s) ''Van A Nguyen'') (Num (7 / 10))
          \<and> (\<forall>p\<in>set pre. js_gt (calculateNameSimilarity (name s) ''Van A Nguyen'')
                              (calculateNameSimilarity (name p) ''Van A Nguyen''))
          \<and> (\<forall>p\<in>set post. js_ge (calculateNameSimilarity (name s) ''Van A Nguyen'')
                               (calculateNameSimilarity (name p) ''Van A Nguyen''))
          \<and> fst (POST (request_of ocr_name) store2) =
               Success \<lparr>att_studentId = id' s, status = ''Name_Match'', date = now (request_of ocr_name)\<rparr>
                 ''Name_Match'' s ocr_name)
   \<and> fst (POST (request_of ocr_name) store2) =
        Success \<lparr>att_studentId = 2, status = ''Name_Match'', date = 7\<rparr> ''Name_Match'' (roster2 ! 1) ocr_name"
proof -
  have h1: "file' (request_of ocr_name)" "ocr (request_of ocr_name) = OcrOk ocr_name"
    by (simp_all add: request_of_def)
  have h2: "75 \<le> confidence ocr_name" "student_name ocr_name = Some ''Van A Nguyen''"
    by (simp_all add: ocr_name_def)
  have h3: "\<forall>s\<in>set (students store2).
          \<not> (truthy (student_id ocr_name) \<and> student_id ocr_name = Some (studentId s))"
    by (simp add: store2_def roster2_def ocr_name_def)
  have h4: "\<forall>e. \<not> unavailable store2 e" by (simp add: store2_def)
  have sims: "map (\<lambda>p. calculateNameSimilarity (name p) ''Van A Nguyen'') (students store2)
        = [Num (1 / 5), Num 1, Num 1]"
    by code_simp
  have ex: "\<exists>p\<in>set (students store2). js_ge (calculateNameSimilarity (name p) ''Van A Nguyen'') (Num (7 / 10))"
  proof
    show "roster2 ! 1 \<in> set (students store2)" by (simp add: store2_def roster2_def)
    show "js_ge (calculateNameSimilarity (name (roster2 ! 1)) ''Van A Nguyen'') (Num (7 / 10))"
      by code_simp
  qed
  have ev: "fst (POST (request_of ocr_name) store2) =
        Success \<lparr>att_studentId = 2, status = ''Name_Match'', date = 7\<rparr> ''Name_Match'' (roster2 ! 1) ocr_name"
    by code_simp
  from name_match_selects [OF h1 h2(1) h2(2) _ h3 h4] ex
  have "(\<forall>p\<in>set (students store2).
          Similarity (name p) ''Van A Nguyen'' \<in> set (trace (snd (POST (request_of ocr_name) store2))))"
    and sel: "\<exists>pre s post. students store2 = pre @ s # post
          \<and> js_ge (calculateNameSimilarity (name s) ''Van A Nguyen'') (Num (7 / 10))
          \<and> (\<forall>p\<in>set pre. js_gt (calculateNameSimilarity (name s) ''Van A Nguyen'')
                              (calculateNameSimilarity (name p) ''Van A Nguyen''))
          \<and> (\<forall>p\<in>set post. js_ge (calculateNameSimilarity (name s) ''Van A Nguyen'')
                               (calculateNameSimilarity (name p) ''Van A Nguyen''))
          \<and> fst (POST (request_of ocr_name) store2) =
               Success \<lparr>att_studentId = id' s, status = ''Name_Match'', date = now (request_of ocr_name)\<rparr>
                 ''Name_Match'' s ocr_name"
    by simp_all
  then have sc: "set (map (\<lambda>p. Similarity (name p) ''Van A Nguyen'') (students store2))
        \<subseteq> set (trace (snd (POST (request_of ocr_name) store2)))"
    by auto
  have h3': "\<not> (\<exists>s\<in>set (students store2).
            truthy (student_id ocr_name) \<and> student_id ocr_name = Some (studentId s))"
    using h3 by blast
  from sc sel h1 h2 h3' h4 sims ev show ?thesis by blast
qed

text \<open>
  C4. The events of a request contain a roster read or a score only if the OCR reply was
  received, no roster entry carries its identifier, its name is not empty and its
  confidence is at least 75. And an accepted request with no identifier match, for which
  the name is missing or empty, or the roster is empty, or the confidence is below 75,
  is answered that no student was found, with the four OCR fields; the store is left
  with its attendance table as it was and with a trace of the identifier look-up (when
  the identifier is not empty) and, for the empty roster only, of the roster read that
  finds it empty: no score is computed and no record is created.
\<close>

theorem name_match_gate:
  "(POST req st = (resp, st') \<longrightarrow>
      (\<exists>evs. trace st' = trace st @ evs
         \<and> ((FindMany \<in> set evs \<or> (\<exists>n1 n2. Similarity n1 n2 \<in> set evs)) \<longrightarrow>
               (\<exists>r'. ocr req = OcrOk r'
                  \<and> (\<forall>s\<in>set (students st). \<not> (truthy (student_id r') \<and> student_id r' = Some (studentId s)))
                  \<and> truthy (student_name r') \<and> 75 \<le> confidence r'))))
   \<and> (file' rq \<and> ocr rq = OcrOk r \<and> 50 \<le> confidence r
        \<and> (\<forall>s\<in>set (students db). \<not> (truthy (student_id r) \<and> student_id r = Some (studentId s)))
        \<and> (\<forall>e. \<not> unavailable db e)
        \<and> (\<not> truthy (student_name r) \<or> students db = [] \<or> confidence r < 75) \<longrightarrow>
      POST rq db =
        (StudentNotFound (student_id r) (student_name r) (confidence r) (ocr_text r),
         db\<lparr>trace := trace db
               @ (case student_id r of None \<Rightarrow> [] | Some x \<Rightarrow> if x = [] then [] else [FindFirst x])
               @ (if truthy (student_name r) \<and> 75 \<le> confidence r then [FindMany] else [])\<rparr>))"
  using POST_trace [of req st resp st'] POST_name_step_skipped [of rq r db] by blast

theorem name_match_gate_witness:
  "FindMany \<in> set (trace (snd (POST (request_of ocr_name) store2)))
   \<and> (\<exists>r'. ocr (request_of ocr_name) = OcrOk r'
          \<and> (\<forall>s\<in>set (students store2). \<not> (truthy (student_id r') \<and> student_id r' = Some (studentId s)))
          \<and> truthy (student_name r') \<and> 75 \<le> confidence r')
   \<and> 50 \<le> confidence ocr_mid \<and> confidence ocr_mid < 75
   \<and> \<not> (\<exists>s\<in>set (students store2). truthy (student_id ocr_mid) \<and> student_id ocr_mid = Some (studentId s))
   \<and> POST (request_of ocr_mid) store2 =
        (StudentNotFound (Some ''B21DCVT999'') (Some ''Van A Nguyen'') 74 ''B21DCVT999 Van A Nguyen'',
         store2\<lparr>trace := [FindFirst ''B21DCVT999'']\<rparr>)
   \<and> students store0 = [] \<and> 50 \<le> confidence ocr_name
   \<and> POST (request_of ocr_name) store0 =
        (StudentNotFound (Some ''B21DCVT999'') (Some ''Van A Nguyen'') 80 ''B21DCVT999 Van A Nguyen'',
         store0\<lparr>trace := [FindFirst ''B21DCVT999'', FindMany]\<rparr>)
   \<and> \<not> truthy (student_name ocr_noname) \<and> 50 \<le> confidence ocr_noname
   \<and> POST (request_of ocr_noname) store2 =
        (StudentNotFound (Some ''B21DCVT999'') (Some []) 90 ''B21DCVT999'',
         store2\<lparr>trace := [FindFirst ''B21DCVT999'']\<rparr>)"
proof -
  have av: "\<forall>e. \<not> unavailable store2 e" "\<forall>e. \<not> unavailable store0 e"
    by (simp_all add: store2_def store0_def)
  have rq: "file' (request_of r)" "ocr (request_of r) = OcrOk r" for r
    by (simp_all add: request_of_def)
  have t0: "trace store2 = []" "trace store0 = []" by (simp_all add: store2_def store0_def)
  have fm: "FindMany \<in> set (trace (snd (POST (request_of ocr_name) store2)))" by code_simp
  have mid: "50 \<le> confidence ocr_mid" "confidence ocr_mid < 75"
    "\<forall>s\<in>set (students store2). \<not> (truthy (student_id ocr_mid) \<and> student_id ocr_mid = Some (studentId s))"
    by (simp_all add: ocr_mid_def store2_def roster2_def)
  have emp: "students store0 = []" "50 \<le> confidence ocr_name"
    "\<forall>s\<in>set (students store0). \<not> (truthy (student_id ocr_name) \<and> student_id ocr_name = Some (studentId s))"
    by (simp_all add: ocr_name_def store0_def)
  have non: "\<not> truthy (student_name ocr_noname)" "50 \<le> confidence ocr_noname"
    "\<forall>s\<in>set (students store2). \<not> (truthy (student_id ocr_noname) \<and> student_id ocr_noname = Some (studentId s))"
    by (simp_all add: ocr_noname_def store2_def roster2_def)
  have p: "POST (request_of ocr_name) store2
      = (fst (POST (request_of ocr_name) store2), snd (POST (request_of ocr_name) store2))"
    by simp
  from name_match_gate [of "request_of ocr_name" store2 "fst (POST (request_of ocr_name) store2)"
        "snd (POST (request_of ocr_name) store2)" "request_of ocr_mid" ocr_mid store2] p fm t0 rq av mid
  have 1: "\<exists>r'. ocr (request_of ocr_name) = OcrOk r'
          \<and> (\<forall>s\<in>set (students store2). \<not> (truthy (student_id r') \<and> student_id r' = Some (studentId s)))
          \<and> truthy (student_name r') \<and> 75 \<le> confidence r'"
    and 2: "POST (request_of ocr_mid) store2 =
        (StudentNotFound (student_id ocr_mid) (student_name ocr_mid) (confidence ocr_mid) (ocr_text ocr_mid),
         store2\<lparr>trace := trace store2
               @ (case student_id ocr_mid of None \<Rightarrow> [] | Some x \<Rightarrow> if x = [] then [] else [FindFirst x])
               @ (if truthy (student_name ocr_mid) \<and> 75 \<le> confidence ocr_mid then [FindMany] else [])\<rparr>)"
    by auto
  from name_match_gate [of "request_of ocr_name" store2 "fst (POST (request_of ocr_name) store2)"
        "snd (POST (request_of ocr_name) store2)" "request_of ocr_name" ocr_name store0] rq av emp
  have 3: "POST (request_of ocr_name) store0 =
        (StudentNotFound (student_id ocr_name) (student_name ocr_name) (confidence ocr_name) (ocr_text ocr_name),
         store0\<lparr>trace := trace store0
               @ (case student_id ocr_name of None \<Rightarrow> [] | Some x \<Rightarrow> if x = [] then [] else [FindFirst x])
               @ (if truthy (student_name ocr_name) \<and> 75 \<le> confidence ocr_name then [FindMany] else [])\<rparr>)"
    by blast
  from name_match_gate [of "request_of ocr_name" store2 "fst (POST (request_of ocr_name) store2)"
        "snd (POST (request_of ocr_name) store2)" "request_of ocr_noname" ocr_noname store2] rq av non
  have 4: "POST (request_of ocr_noname) store2 =
        (StudentNotFound (student_id ocr_noname) (student_name ocr_noname) (confidence ocr_noname) (ocr_text ocr_noname),
         store2\<lparr>trace := trace store2
               @ (case student_id ocr_noname of None \<Rightarrow> [] | Some x \<Rightarrow> if x = [] then [] else [FindFirst x])
               @ (if truthy (student_name ocr_noname) \<and> 75 \<le> confidence ocr_noname then [FindMany] else [])\<rparr>)"
    by blast
  have c2: "POST (request_of ocr_mid) store2 =
        (StudentNotFound (Some ''B21DCVT999'') (Some ''Van A Nguyen'') 74 ''B21DCVT999 Van A Nguyen'',
         store2\<lparr>trace := [FindFirst ''B21DCVT999'']\<rparr>)"
    unfolding 2 by (simp add: ocr_mid_def t0)
  have c3: "POST (request_of ocr_name) store0 =
        (StudentNotFound (Some ''B21DCVT999'') (Some ''Van A Nguyen'') 80 ''B21DCVT999 Van A Nguyen'',
         store0\<lparr>trace := [FindFirst ''B21DCVT999'', FindMany]\<rparr>)"
    unfolding 3 by (simp add: ocr_name_def t0)
  have c4: "POST (request_of ocr_noname) store2 =
        (StudentNotFound (Some ''B21DCVT999'') (Some []) 90 ''B21DCVT999'',
         store2\<lparr>trace := [FindFirst ''B21DCVT999'']\<rparr>)"
    unfolding 4 by (simp add: ocr_noname_def t0)
  have nohit: "\<not> (\<exists>s\<in>set (students store2). truthy (student_id ocr_mid) \<and> student_id ocr_mid = Some (studentId s))"
    using mid(3) by blast
  from fm 1 mid(1) mid(2) nohit emp(1) emp(2) non(1) non(2) c2 c3 c4 show ?thesis by blast
qed

end
